theory Spec2Isabelle
  imports Main
begin

section \<open>Trivia API: the request handlers of \<^verbatim>\<open>flaskr/__init__.py\<close>\<close>

text \<open>
  The handlers are embedded as functions from a request and the stored tables to either a
  raised exception or the Python dictionary handed to \<^verbatim>\<open>jsonify\<close>.
  What the source leaves to its collaborators (the relational store, the random number
  generator, the web framework) is an explicit argument.
\<close>

subsection \<open>Python values\<close>

text \<open>
  The values a decoded JSON body and a response dictionary are built from. A dictionary is
  an association list in insertion order. JSON numbers with a fraction or an exponent
  (Python floats) are outside this model.
\<close>

datatype pyval =
    PNone
  | PBool bool
  | PInt int
  | PStr string
  | PList "pyval list"
  | PDict "(pyval \<times> pyval) list"

text \<open>
  The exceptions the handlers meet. \<open>HTTPException c\<close> is what \<^verbatim>\<open>abort(c)\<close> raises; it is
  an ordinary Python exception, so a bare \<^verbatim>\<open>except:\<close> and \<^verbatim>\<open>except Exception\<close> both catch it.
\<close>

datatype exn =
    HTTPException nat
  | AttributeError
  | TypeError
  | KeyError
  | IndexError
  | ValueError
  | MultipleResultsFound
  | StorageError

definition abort :: "nat \<Rightarrow> exn + 'a" where
  "abort c = Inl (HTTPException c)"

subsection \<open>Stored entities\<close>

text \<open>
  A row of the \<^verbatim>\<open>questions\<close> table and a row of the \<^verbatim>\<open>categories\<close> table. The primary
  key is an integer; every other column of a question is nullable.
\<close>

record question =
  q_id :: int
  q_question :: "string option"
  q_answer :: "string option"
  q_category :: "int option"
  q_difficulty :: "int option"

record category =
  c_id :: int
  c_type :: string

text \<open>The store: both tables, each in the order in which an unordered query returns its rows.\<close>

record db =
  questions :: "question list"
  categories :: "category list"

definition opt_str :: "string option \<Rightarrow> pyval" where
  "opt_str v = (case v of None \<Rightarrow> PNone | Some s \<Rightarrow> PStr s)"

definition opt_int :: "int option \<Rightarrow> pyval" where
  "opt_int v = (case v of None \<Rightarrow> PNone | Some n \<Rightarrow> PInt n)"

text \<open>
  Modelled from the spec: \<^verbatim>\<open>Question.format\<close> of \<^verbatim>\<open>models.py\<close>, which is not among the
  sources. The spec has it return the plain field-keyed representation
  \<^verbatim>\<open>{id, question, answer, difficulty, category}\<close> of the row.
\<close>

definition format :: "question \<Rightarrow> pyval" where
  "format q = PDict
     [(PStr ''id'', PInt (q_id q)),
      (PStr ''question'', opt_str (q_question q)),
      (PStr ''answer'', opt_str (q_answer q)),
      (PStr ''difficulty'', opt_int (q_difficulty q)),
      (PStr ''category'', opt_int (q_category q))]"

subsection \<open>The request\<close>

text \<open>
  \<open>args_page\<close> is the \<^verbatim>\<open>page\<close> query parameter after the conversion \<^verbatim>\<open>type=int\<close>:
  \<open>None\<close> when the parameter is absent or is not an integer, in which case
  \<^verbatim>\<open>request.args.get('page', 1, type=int)\<close> yields the default. \<open>json_body\<close> is the value
  of \<^verbatim>\<open>request.get_json()\<close>, \<open>PNone\<close> when the request carries no JSON body.
\<close>

record request =
  args_page :: "int option"
  json_body :: pyval

definition QUESTIONS_PER_PAGE :: int where
  "QUESTIONS_PER_PAGE = 10"

subsection \<open>Pagination\<close>

text \<open>
  Python's \<^verbatim>\<open>xs[start:stop]\<close> on a list: a negative bound counts from the end, both bounds
  are clamped to the list, and an empty or inverted range is the empty list.
\<close>

definition py_slice :: "'a list \<Rightarrow> int \<Rightarrow> int \<Rightarrow> 'a list" where
  "py_slice xs start stop =
     (let n = int (length xs);
          s = (if start < 0 then max (start + n) 0 else min start n);
          e = (if stop < 0 then max (stop + n) 0 else min stop n)
      in take (nat (e - s)) (drop (nat s) xs))"

definition get_page :: "request \<Rightarrow> int" where
  "get_page req = (case args_page req of None \<Rightarrow> 1 | Some p \<Rightarrow> p)"

definition paginate_questions :: "request \<Rightarrow> question list \<Rightarrow> pyval list" where
  "paginate_questions req selection =
     (let page = get_page req;
          start = (page - 1) * QUESTIONS_PER_PAGE;
          stop = start + QUESTIONS_PER_PAGE;
          qs = map format selection;
          current_questions = py_slice qs start stop
      in current_questions)"

subsection \<open>Operations on Python values\<close>

text \<open>\<^verbatim>\<open>body.get(key, None)\<close>: only a dictionary has the method \<^verbatim>\<open>get\<close>.\<close>

definition py_get :: "pyval \<Rightarrow> string \<Rightarrow> exn + pyval" where
  "py_get body key =
     (case body of
        PDict kvs \<Rightarrow> Inr (case map_of kvs (PStr key) of None \<Rightarrow> PNone | Some v \<Rightarrow> v)
      | _ \<Rightarrow> Inl AttributeError)"

text \<open>
  \<^verbatim>\<open>v[key]\<close> with a string key: a dictionary without the key raises \<^verbatim>\<open>KeyError\<close>; on
  \<^verbatim>\<open>None\<close>, a number, a string or a list the subscript raises \<^verbatim>\<open>TypeError\<close>.
\<close>

definition py_getitem :: "pyval \<Rightarrow> string \<Rightarrow> exn + pyval" where
  "py_getitem v key =
     (case v of
        PDict kvs \<Rightarrow> (case map_of kvs (PStr key) of None \<Rightarrow> Inl KeyError | Some x \<Rightarrow> Inr x)
      | _ \<Rightarrow> Inl TypeError)"

definition is_dict :: "pyval \<Rightarrow> bool" where
  "is_dict v = (case v of PDict kvs \<Rightarrow> True | _ \<Rightarrow> False)"

text \<open>The truth value of \<^verbatim>\<open>if v:\<close>.\<close>

definition truthy :: "pyval \<Rightarrow> bool" where
  "truthy v =
     (case v of
        PNone \<Rightarrow> False
      | PBool b \<Rightarrow> b
      | PInt n \<Rightarrow> n \<noteq> 0
      | PStr s \<Rightarrow> s \<noteq> []
      | PList xs \<Rightarrow> xs \<noteq> []
      | PDict kvs \<Rightarrow> kvs \<noteq> [])"

text \<open>\<^verbatim>\<open>v == i\<close> for an integer \<open>i\<close>: \<^verbatim>\<open>True == 1\<close> and \<^verbatim>\<open>False == 0\<close> hold in Python.\<close>

definition py_eq_int :: "pyval \<Rightarrow> int \<Rightarrow> bool" where
  "py_eq_int v i =
     (case v of
        PInt n \<Rightarrow> n = i
      | PBool b \<Rightarrow> (if b then 1 else 0) = i
      | _ \<Rightarrow> False)"

text \<open>The elements \<^verbatim>\<open>for x in v\<close> runs through, and \<^verbatim>\<open>len(v)\<close>.\<close>

definition py_iter :: "pyval \<Rightarrow> exn + pyval list" where
  "py_iter v =
     (case v of
        PList xs \<Rightarrow> Inr xs
      | PStr s \<Rightarrow> Inr (map (\<lambda>c. PStr [c]) s)
      | PDict kvs \<Rightarrow> Inr (map fst kvs)
      | _ \<Rightarrow> Inl TypeError)"

definition py_len :: "pyval \<Rightarrow> exn + nat" where
  "py_len v =
     (case v of
        PList xs \<Rightarrow> Inr (length xs)
      | PStr s \<Rightarrow> Inr (length s)
      | PDict kvs \<Rightarrow> Inr (length kvs)
      | _ \<Rightarrow> Inl TypeError)"

text \<open>\<^verbatim>\<open>d[k] = v\<close> on a dictionary: an existing key keeps its place.\<close>

fun dict_set :: "(pyval \<times> pyval) list \<Rightarrow> pyval \<Rightarrow> pyval \<Rightarrow> (pyval \<times> pyval) list" where
  "dict_set [] k v = [(k, v)]"
| "dict_set ((k', v') # m) k v =
     (if k' = k then (k', v) # m else (k', v') # dict_set m k v)"

text \<open>\<^verbatim>\<open>l[-1]\<close>: the last element, \<^verbatim>\<open>IndexError\<close> on the empty list.\<close>

definition py_last :: "'a list \<Rightarrow> exn + 'a" where
  "py_last l = (case l of [] \<Rightarrow> Inl IndexError | _ \<Rightarrow> Inr (last l))"

text \<open>The decimal numeral of an integer, as \<^verbatim>\<open>str\<close> prints it.\<close>

fun digits :: "nat \<Rightarrow> string" where
  "digits n =
     (if n < 10 then [''0123456789'' ! n]
      else digits (n div 10) @ [''0123456789'' ! (n mod 10)])"

definition str_int :: "int \<Rightarrow> string" where
  "str_int i = (if i < 0 then CHR ''-'' # digits (nat (- i)) else digits (nat i))"

subsection \<open>Collaborators\<close>

text \<open>
  What the handlers use and the sources do not define:
  \<^item> \<open>ilike\<close>: the store's \<^verbatim>\<open>ILIKE\<close> operator, applied to a pattern and a (nullable) text
    column;
  \<^item> \<open>col_eq\<close>: the store's comparison of the (nullable) integer column
    \<^verbatim>\<open>Question.category\<close> with a Python value bound as parameter;
  \<^item> \<open>insert_row\<close>: \<^verbatim>\<open>Question(question=.., answer=.., category=.., difficulty=..)\<close> followed
    by \<^verbatim>\<open>question.insert()\<close>; it yields the stored row, with its new id, and the new
    tables, or raises;
  \<^item> \<open>delete_row\<close>: \<^verbatim>\<open>question.delete()\<close>; it yields the new tables, or raises;
  \<^item> \<open>container_str\<close>: the text \<^verbatim>\<open>str\<close> gives for a list or a dictionary.
\<close>

record env =
  ilike :: "string \<Rightarrow> string option \<Rightarrow> bool"
  col_eq :: "int option \<Rightarrow> pyval \<Rightarrow> bool"
  insert_row :: "pyval \<Rightarrow> pyval \<Rightarrow> pyval \<Rightarrow> pyval \<Rightarrow> db \<Rightarrow> exn + question \<times> db"
  delete_row :: "question \<Rightarrow> db \<Rightarrow> exn + db"
  container_str :: "pyval \<Rightarrow> string"

text \<open>\<^verbatim>\<open>'{}'.format(v)\<close>, the text of a value.\<close>

definition py_str :: "env \<Rightarrow> pyval \<Rightarrow> string" where
  "py_str E v =
     (case v of
        PNone \<Rightarrow> ''None''
      | PBool b \<Rightarrow> (if b then ''True'' else ''False'')
      | PInt n \<Rightarrow> str_int n
      | PStr s \<Rightarrow> s
      | _ \<Rightarrow> container_str E v)"

text \<open>
  \<^verbatim>\<open>Query.one_or_none()\<close>: no row gives \<^verbatim>\<open>None\<close>, one row gives the row, more raise.
\<close>

definition one_or_none :: "'a list \<Rightarrow> exn + 'a option" where
  "one_or_none rows =
     (case rows of
        [] \<Rightarrow> Inr None
      | [r] \<Rightarrow> Inr (Some r)
      | _ \<Rightarrow> Inl MultipleResultsFound)"

text \<open>\<^verbatim>\<open>Question.query.order_by(Question.id).all()\<close>.\<close>

definition all_by_id :: "db \<Rightarrow> question list" where
  "all_by_id d = sort_key q_id (questions d)"

subsection \<open>Handlers\<close>

abbreviation success :: "pyval \<times> pyval" where
  "success \<equiv> (PStr ''success'', PBool True)"

text \<open>\<^verbatim>\<open>GET /categories\<close>\<close>

definition categories_dict_of :: "category list \<Rightarrow> (pyval \<times> pyval) list" where
  "categories_dict_of cs = fold (\<lambda>c m. dict_set m (PInt (c_id c)) (PStr (c_type c))) cs []"

definition get_categories :: "db \<Rightarrow> exn + pyval" where
  "get_categories d =
     (let categories_dict = categories_dict_of (categories d)
      in if length categories_dict = 0 then abort 404
         else Inr (PDict [success, (PStr ''categories'', PDict categories_dict)]))"

text \<open>
  \<^verbatim>\<open>GET /questions\<close>. The tuple \<^verbatim>\<open>l[-1]\<close> of a key and a value is the two-element list
  \<^verbatim>\<open>jsonify\<close> renders it as.
\<close>

definition get_questions :: "request \<Rightarrow> db \<Rightarrow> exn + pyval" where
  "get_questions req d =
     (let selection = all_by_id d;
          current_questions = paginate_questions req selection;
          categories_dict = categories_dict_of (categories d);
          l = categories_dict
      in case py_last l of
           Inl e \<Rightarrow> Inl e
         | Inr current_category \<Rightarrow>
             if length current_questions = 0 then abort 404
             else Inr (PDict
               [success,
                (PStr ''questions'', PList current_questions),
                (PStr ''total_questions'', PInt (int (length (questions d)))),
                (PStr ''categories'', PDict categories_dict),
                (PStr ''current_category'',
                   PList [fst current_category, snd current_category])]))"

text \<open>
  \<^verbatim>\<open>DELETE /questions/<int:question_id>\<close>. \<open>delete_question_try\<close> is the body of the
  \<^verbatim>\<open>try\<close>; the bare \<^verbatim>\<open>except:\<close> turns whatever it raises into \<^verbatim>\<open>abort(422)\<close>.
\<close>

definition delete_question_try :: "env \<Rightarrow> request \<Rightarrow> int \<Rightarrow> db \<Rightarrow> (exn + pyval) \<times> db" where
  "delete_question_try E req question_id d =
     (case one_or_none (filter (\<lambda>q. q_id q = question_id) (questions d)) of
        Inl e \<Rightarrow> (Inl e, d)
      | Inr None \<Rightarrow> (abort 404, d)
      | Inr (Some question) \<Rightarrow>
          (case delete_row E question d of
             Inl e \<Rightarrow> (Inl e, d)
           | Inr d' \<Rightarrow>
               (let selection = all_by_id d';
                    current_questions = paginate_questions req selection
                in (Inr (PDict
                     [success,
                      (PStr ''deleted'', PInt question_id),
                      (PStr ''questions'', PList current_questions),
                      (PStr ''total_questions'', PInt (int (length (questions d'))))]),
                    d'))))"

definition delete_question :: "env \<Rightarrow> request \<Rightarrow> int \<Rightarrow> db \<Rightarrow> (exn + pyval) \<times> db" where
  "delete_question E req question_id d =
     (case delete_question_try E req question_id d of
        (Inl e, d') \<Rightarrow> (abort 422, d')
      | (Inr r, d') \<Rightarrow> (Inr r, d'))"

text \<open>
  \<^verbatim>\<open>POST /questions\<close>. The five \<^verbatim>\<open>body.get\<close> calls come before the \<^verbatim>\<open>try\<close>;
  \<open>create_question_try\<close> is its body, and \<^verbatim>\<open>except Exception\<close> turns whatever it raises
  into \<^verbatim>\<open>abort(422)\<close>.
\<close>

definition create_question_try ::
  "env \<Rightarrow> request \<Rightarrow> pyval \<Rightarrow> pyval \<Rightarrow> pyval \<Rightarrow> pyval \<Rightarrow> pyval \<Rightarrow> db \<Rightarrow> (exn + pyval) \<times> db" where
  "create_question_try E req new_question new_answer new_category new_difficulty search d =
     (if truthy search then
        (let selection =
               filter (\<lambda>q. ilike E (''%'' @ py_str E search @ ''%'') (q_question q)) (all_by_id d)
         in if length selection = 0 then
              (Inr (PDict
                 [success,
                  (PStr ''questions'', PList []),
                  (PStr ''total_questions'', PInt 0)]), d)
            else
              (let current_questions = paginate_questions req selection
               in (Inr (PDict
                    [success,
                     (PStr ''questions'', PList current_questions),
                     (PStr ''total_questions'', PInt (int (length selection)))]), d)))
      else
        (case insert_row E new_question new_answer new_category new_difficulty d of
           Inl e \<Rightarrow> (Inl e, d)
         | Inr (question, d') \<Rightarrow>
             (let selection = all_by_id d';
                  current_questions = paginate_questions req selection
              in (Inr (PDict
                   [success,
                    (PStr ''created'', PInt (q_id question)),
                    (PStr ''question_created'', opt_str (q_question question)),
                    (PStr ''questions'', PList current_questions),
                    (PStr ''total_questions'', PInt (int (length (questions d'))))]),
                  d'))))"

definition create_question :: "env \<Rightarrow> request \<Rightarrow> db \<Rightarrow> (exn + pyval) \<times> db" where
  "create_question E req d =
     (let body = json_body req
      in case py_get body ''question'' of Inl e \<Rightarrow> (Inl e, d) | Inr new_question \<Rightarrow>
         case py_get body ''answer'' of Inl e \<Rightarrow> (Inl e, d) | Inr new_answer \<Rightarrow>
         case py_get body ''category'' of Inl e \<Rightarrow> (Inl e, d) | Inr new_category \<Rightarrow>
         case py_get body ''difficulty'' of Inl e \<Rightarrow> (Inl e, d) | Inr new_difficulty \<Rightarrow>
         case py_get body ''searchTerm'' of Inl e \<Rightarrow> (Inl e, d) | Inr search \<Rightarrow>
         (case create_question_try E req new_question new_answer new_category
                 new_difficulty search d of
            (Inl e, d') \<Rightarrow> (abort 422, d')
          | (Inr r, d') \<Rightarrow> (Inr r, d')))"

text \<open>\<^verbatim>\<open>GET /categories/<int:category_id>/questions\<close>\<close>

definition get_questions_by_category :: "request \<Rightarrow> int \<Rightarrow> db \<Rightarrow> exn + pyval" where
  "get_questions_by_category req category_id d =
     (case one_or_none (filter (\<lambda>c. c_id c = category_id) (categories d)) of
        Inl e \<Rightarrow> Inl e
      | Inr None \<Rightarrow> abort 400
      | Inr (Some category) \<Rightarrow>
          (let selection = filter (\<lambda>q. q_category q = Some (c_id category)) (questions d);
               current_questions = paginate_questions req selection
           in Inr (PDict
                [success,
                 (PStr ''questions'', PList current_questions),
                 (PStr ''total_questions'', PInt (int (length (questions d)))),
                 (PStr ''current_category'', PStr (c_type category))])))"

text \<open>
  \<^verbatim>\<open>POST /quizzes\<close>. The random number generator is the sequence \<open>rnd\<close>: the \<open>k\<close>-th call
  of \<^verbatim>\<open>random.randrange(0, n, 1)\<close> returns \<open>rnd k mod n\<close>, which ranges over every
  possible sequence of draws, and raises \<^verbatim>\<open>ValueError\<close> when \<open>n = 0\<close>.
\<close>

definition get_random_question :: "(nat \<Rightarrow> nat) \<Rightarrow> nat \<Rightarrow> question list \<Rightarrow> exn + question" where
  "get_random_question rnd k qs =
     (if length qs = 0 then Inl ValueError else Inr (qs ! (rnd k mod length qs)))"

definition check_if_used :: "pyval \<Rightarrow> question \<Rightarrow> exn + bool" where
  "check_if_used previous question =
     (case py_iter previous of
        Inl e \<Rightarrow> Inl e
      | Inr xs \<Rightarrow>
          Inr (fold (\<lambda>x used. if py_eq_int x (q_id question) then True else used) xs False))"

text \<open>
  The \<^verbatim>\<open>while\<close> loop, entered with the first draw; \<open>k\<close> counts the draws made so far. It
  need not end: not returning is the value \<open>None\<close>.
\<close>

partial_function (option) quiz_loop ::
  "(nat \<Rightarrow> nat) \<Rightarrow> nat \<Rightarrow> question list \<Rightarrow> nat \<Rightarrow> pyval \<Rightarrow> question \<Rightarrow> (exn + pyval) option" where
  "quiz_loop rnd k qs total_questions previous question =
     (case check_if_used previous question of
        Inl e \<Rightarrow> Some (Inl e)
      | Inr used \<Rightarrow>
          if used then
            (case get_random_question rnd k qs of
               Inl e \<Rightarrow> Some (Inl e)
             | Inr question' \<Rightarrow>
                 (case py_len previous of
                    Inl e \<Rightarrow> Some (Inl e)
                  | Inr n \<Rightarrow>
                      if n = total_questions then Some (Inr (PDict [success]))
                      else quiz_loop rnd (Suc k) qs total_questions previous question'))
          else Some (Inr (PDict [success, (PStr ''question'', format question)])))"

declare quiz_loop.simps [code]

text \<open>
  What a result \<open>r\<close> of the loop satisfies when \<^verbatim>\<open>previous\<close> can be iterated and there
  is a candidate: either it is the bare success and \<^verbatim>\<open>len(previous)\<close> is the total, or
  it carries a question, the one the loop was entered with or a later draw, that is not
  used.
\<close>

definition loop_post ::
  "(nat \<Rightarrow> nat) \<Rightarrow> nat \<Rightarrow> question list \<Rightarrow> nat \<Rightarrow> pyval \<Rightarrow> question \<Rightarrow> exn + pyval \<Rightarrow> bool" where
  "loop_post rnd k qs t previous question r =
     ((\<exists>xs. py_iter previous = Inr xs) \<and> qs \<noteq> [] \<longrightarrow>
       (r = Inr (PDict [success]) \<and> py_len previous = Inr t)
       \<or> (\<exists>q. (q = question \<or> (\<exists>j\<ge>k. q = qs ! (rnd j mod length qs)))
             \<and> check_if_used previous q = Inr False
             \<and> r = Inr (PDict [success, (PStr ''question'', format q)])))"

text \<open>
  The candidate set: every question when \<^verbatim>\<open>category['id'] == 0\<close>, else the questions the
  store selects by \<^verbatim>\<open>Question.category == category['id']\<close>.
\<close>

definition candidate_set :: "env \<Rightarrow> pyval \<Rightarrow> db \<Rightarrow> question list" where
  "candidate_set E cid d =
     (if py_eq_int cid 0 then questions d
      else filter (\<lambda>q. col_eq E (q_category q) cid) (questions d))"

definition quiz_try :: "env \<Rightarrow> (nat \<Rightarrow> nat) \<Rightarrow> pyval \<Rightarrow> pyval \<Rightarrow> db \<Rightarrow> (exn + pyval) option" where
  "quiz_try E rnd previous category d =
     (case py_getitem category ''id'' of
        Inl e \<Rightarrow> Some (Inl e)
      | Inr cid \<Rightarrow>
          (let qs = candidate_set E cid d;
               total_questions = length qs
           in case get_random_question rnd 0 qs of
                Inl e \<Rightarrow> Some (Inl e)
              | Inr question \<Rightarrow> quiz_loop rnd 1 qs total_questions previous question))"

definition get_random_quiz_question ::
  "env \<Rightarrow> (nat \<Rightarrow> nat) \<Rightarrow> request \<Rightarrow> db \<Rightarrow> (exn + pyval) option" where
  "get_random_quiz_question E rnd req d =
     (let body = json_body req
      in case py_get body ''previous_questions'' of Inl e \<Rightarrow> Some (Inl e) | Inr previous \<Rightarrow>
         case py_get body ''quiz_category'' of Inl e \<Rightarrow> Some (Inl e) | Inr category \<Rightarrow>
         (case quiz_try E rnd previous category d of
            None \<Rightarrow> None
          | Some (Inl e) \<Rightarrow> Some (abort 400)
          | Some (Inr r) \<Rightarrow> Some (Inr r)))"

subsection \<open>Error responses\<close>

definition error_body :: "int \<Rightarrow> string \<Rightarrow> pyval" where
  "error_body c msg =
     PDict [(PStr ''success'', PBool False), (PStr ''error'', PInt c), (PStr ''message'', PStr msg)]"

definition not_found :: "pyval \<times> nat" where
  "not_found = (error_body 404 ''resource not found'', 404)"

definition unprocessable :: "pyval \<times> nat" where
  "unprocessable = (error_body 422 ''unprocessable'', 422)"

definition bad_request :: "pyval \<times> nat" where
  "bad_request = (error_body 400 ''bad request'', 400)"

definition method_not_allowed :: "pyval \<times> nat" where
  "method_not_allowed = (error_body 405 ''method not allowed'', 405)"

definition internal_server_error :: "pyval \<times> nat" where
  "internal_server_error = (error_body 500 ''internal server error'', 500)"

text \<open>
  What the framework sends for the outcome of a handler: the returned dictionary with
  status 200; for \<^verbatim>\<open>abort(c)\<close> the registered error handler of \<open>c\<close> (a code without one
  has no JSON body here); for any other exception, which nothing caught, the handler of
  500.
\<close>

definition respond :: "exn + pyval \<Rightarrow> pyval \<times> nat" where
  "respond r =
     (case r of
        Inr body \<Rightarrow> (body, 200)
      | Inl (HTTPException c) \<Rightarrow>
          (if c = 404 then not_found
           else if c = 422 then unprocessable
           else if c = 400 then bad_request
           else if c = 405 then method_not_allowed
           else if c = 500 then internal_server_error
           else (PNone, c))
      | Inl _ \<Rightarrow> internal_server_error)"

definition status :: "exn + pyval \<Rightarrow> nat" where
  "status r = snd (respond r)"

subsection \<open>A reference store\<close>

text \<open>
  One instance of the collaborators, on which the handlers can be run on concrete tables.
\<close>

text \<open>
  Modelled from the spec: \<^verbatim>\<open>Question.delete\<close> of \<^verbatim>\<open>models.py\<close>, which is not among the
  sources: it removes the row of the question from storage.
\<close>

definition question_delete :: "question \<Rightarrow> db \<Rightarrow> exn + db" where
  "question_delete q d = Inr (d\<lparr>questions := filter (\<lambda>r. q_id r \<noteq> q_id q) (questions d)\<rparr>)"

definition as_text :: "pyval \<Rightarrow> exn + string option" where
  "as_text v = (case v of PNone \<Rightarrow> Inr None | PStr s \<Rightarrow> Inr (Some s) | _ \<Rightarrow> Inl StorageError)"

definition as_integer :: "pyval \<Rightarrow> exn + int option" where
  "as_integer v = (case v of PNone \<Rightarrow> Inr None | PInt n \<Rightarrow> Inr (Some n) | _ \<Rightarrow> Inl StorageError)"

definition next_id :: "question list \<Rightarrow> int" where
  "next_id qs = fold (\<lambda>q m. max m (q_id q)) qs 0 + 1"

text \<open>
  Modelled from the spec: the constructor and \<^verbatim>\<open>Question.insert\<close> of \<^verbatim>\<open>models.py\<close>, which
  is not among the sources: the four content fields are persisted, a missing one as null,
  under a server-generated, unique id. A value that is neither null nor of the column's
  type makes the store raise.
\<close>

definition question_insert ::
  "pyval \<Rightarrow> pyval \<Rightarrow> pyval \<Rightarrow> pyval \<Rightarrow> db \<Rightarrow> exn + question \<times> db" where
  "question_insert new_question new_answer new_category new_difficulty d =
     (case as_text new_question of Inl e \<Rightarrow> Inl e | Inr qu \<Rightarrow>
      case as_text new_answer of Inl e \<Rightarrow> Inl e | Inr an \<Rightarrow>
      case as_integer new_category of Inl e \<Rightarrow> Inl e | Inr ca \<Rightarrow>
      case as_integer new_difficulty of Inl e \<Rightarrow> Inl e | Inr di \<Rightarrow>
        (let q = \<lparr>q_id = next_id (questions d), q_question = qu, q_answer = an,
                  q_category = ca, q_difficulty = di\<rparr>
         in Inr (q, d\<lparr>questions := questions d @ [q]\<rparr>)))"

text \<open>
  The \<^verbatim>\<open>LIKE\<close> operator: \<^verbatim>\<open>%\<close> stands for any run of characters, \<^verbatim>\<open>_\<close> for any one
  character; no escape character is modelled. \<^verbatim>\<open>ILIKE\<close> compares without regard to
  the case of the letters A to Z, and a null column matches nothing.
\<close>

fun like :: "string \<Rightarrow> string \<Rightarrow> bool" where
  "like [] s = (s = [])"
| "like (p # ps) [] = (p = CHR ''%'' \<and> like ps [])"
| "like (p # ps) (c # cs) =
     (if p = CHR ''%'' then like ps (c # cs) \<or> like (p # ps) cs
      else (p = CHR ''_'' \<or> p = c) \<and> like ps cs)"

definition lower :: "char \<Rightarrow> char" where
  "lower c =
     (case map_of (zip ''ABCDEFGHIJKLMNOPQRSTUVWXYZ'' ''abcdefghijklmnopqrstuvwxyz'') c of
        None \<Rightarrow> c
      | Some l \<Rightarrow> l)"

definition sql_ilike :: "string \<Rightarrow> string option \<Rightarrow> bool" where
  "sql_ilike pattern col =
     (case col of None \<Rightarrow> False | Some t \<Rightarrow> like (map lower pattern) (map lower t))"

definition sql_col_eq :: "int option \<Rightarrow> pyval \<Rightarrow> bool" where
  "sql_col_eq col v = (case v of PInt n \<Rightarrow> col = Some n | _ \<Rightarrow> False)"

definition reference_env :: env where
  "reference_env =
     \<lparr>ilike = sql_ilike, col_eq = sql_col_eq, insert_row = question_insert,
      delete_row = question_delete, container_str = (\<lambda>v. ''[]'')\<rparr>"

subsection \<open>The search as the specification words it\<close>

text \<open>
  The specification describes the search as a case-insensitive substring match of the
  search term against the question text, over all questions ordered by id.
  \<open>contains s t\<close> holds when \<open>s\<close> occurs in \<open>t\<close> as a contiguous run of characters;
  the case of the letters A to Z is disregarded, and a null text contains nothing.
\<close>

fun is_prefix :: "string \<Rightarrow> string \<Rightarrow> bool" where
  "is_prefix [] t = True"
| "is_prefix (p # ps) [] = False"
| "is_prefix (p # ps) (c # cs) = (p = c \<and> is_prefix ps cs)"

fun contains :: "string \<Rightarrow> string \<Rightarrow> bool" where
  "contains s [] = (s = [])"
| "contains s (c # cs) = (is_prefix s (c # cs) \<or> contains s cs)"




text \<open>
  Sample tables: twelve questions, nine of category 1 and three of category 2, under three
  categories; and a store without any row.
\<close>

definition sample_question :: "int \<Rightarrow> question" where
  "sample_question i =
     \<lparr>q_id = i, q_question = Some ''What is it?'', q_answer = Some ''That'',
      q_category = Some (if i \<le> 9 then 1 else 2), q_difficulty = Some 3\<rparr>"

definition sample_db :: db where
  "sample_db =
     \<lparr>questions = map sample_question [1, 2, 3, 4, 5, 6, 7, 8, 9, 10, 11, 12],
      categories = [\<lparr>c_id = 1, c_type = ''Science''\<rparr>, \<lparr>c_id = 2, c_type = ''Art''\<rparr>,
                    \<lparr>c_id = 3, c_type = ''Sports''\<rparr>]\<rparr>"

definition empty_db :: db where
  "empty_db = \<lparr>questions = [], categories = []\<rparr>"

definition page_request :: "int \<Rightarrow> request" where
  "page_request p = \<lparr>args_page = Some p, json_body = PNone\<rparr>"


definition quiz_request :: "pyval \<Rightarrow> pyval \<Rightarrow> request" where
  "quiz_request previous cid =
     \<lparr>args_page = None,
      json_body = PDict
        [(PStr ''previous_questions'', previous),
         (PStr ''quiz_category'', PDict [(PStr ''type'', PStr ''click''), (PStr ''id'', cid)])]\<rparr>"

section \<open>Properties\<close>

subsection \<open>Auxiliary facts\<close>

lemma py_slice_nonneg:
  assumes "0 \<le> start" and "start \<le> stop"
  shows "py_slice xs start stop = take (nat (stop - start)) (drop (nat start) xs)"
proof (cases "start \<le> int (length xs)")
  case True
  with assms have "min start (int (length xs)) = start" by simp
  moreover have "take (nat (min stop (int (length xs)) - start)) (drop (nat start) xs)
      = take (nat (stop - start)) (drop (nat start) xs)"
  proof (cases "stop \<le> int (length xs)")
    case True
    then show ?thesis by simp
  next
    case False
    then have "min stop (int (length xs)) = int (length xs)" by simp
    moreover have "length (drop (nat start) xs) \<le> nat (int (length xs) - start)"
      using assms by simp
    moreover have "length (drop (nat start) xs) \<le> nat (stop - start)"
      using assms False by simp
    ultimately show ?thesis by simp
  qed
  ultimately show ?thesis
    using assms by (simp add: py_slice_def Let_def)
next
  case False
  then have "drop (nat start) xs = []" by simp
  moreover from False have "drop (nat (min start (int (length xs)))) xs = []" by simp
  ultimately show ?thesis
    using assms by (simp add: py_slice_def Let_def)
qed

lemma paginate_questions_take_drop:
  assumes "get_page req = p" and "1 \<le> p"
  shows "paginate_questions req selection
           = take 10 (drop (nat ((p - 1) * 10)) (map format selection))"
  using assms
  by (simp add: paginate_questions_def QUESTIONS_PER_PAGE_def Let_def py_slice_nonneg)

lemma paginate_questions_Nil: "paginate_questions req [] = []"
  by (simp add: paginate_questions_def py_slice_def Let_def)

lemma filter_singleton_holds:
  assumes "filter P xs = [x]"
  shows "P x"
proof -
  have "x \<in> set (filter P xs)" using assms by simp
  then show ?thesis by simp
qed

lemma dict_set_not_Nil: "dict_set m k v \<noteq> []"
  by (cases m) (auto split: if_splits)

lemma categories_dict_of_Nil: "categories_dict_of [] = []"
  by (simp add: categories_dict_of_def)

lemma categories_dict_of_not_Nil:
  assumes "cs \<noteq> []"
  shows "categories_dict_of cs \<noteq> []"
proof -
  from assms obtain ys y where "cs = ys @ [y]"
    by (metis rev_exhaust)
  then show ?thesis
    by (simp add: categories_dict_of_def dict_set_not_Nil)
qed

lemma status_simps:
  "status (Inr r) = 200"
  "status (abort 404) = 404"
  "status (abort 422) = 422"
  "status (abort 400) = 400"
  "status (Inl AttributeError) = 500"
  "status (Inl IndexError) = 500"
  by (simp_all add: status_def respond_def abort_def not_found_def unprocessable_def
      bad_request_def internal_server_error_def)

lemma py_get_not_dict: "\<not> is_dict body \<Longrightarrow> py_get body key = Inl AttributeError"
  by (cases body) (simp_all add: py_get_def is_dict_def)

lemma py_get_dict:
  "py_get (PDict kvs) key = Inr (case map_of kvs (PStr key) of None \<Rightarrow> PNone | Some v \<Rightarrow> v)"
  by (simp add: py_get_def)

subsection \<open>Pagination\<close>

text \<open>
  C1. For every page number \<open>p \<ge> 1\<close> and every selection, the pagination helper returns
  exactly the slice \<open>items[(p-1)*10 : (p-1)*10+10]\<close> of the formatted items, that is the
  ten elements that follow the first \<open>(p-1)*10\<close>; the result has at most ten elements, and
  when the slice starts at or beyond the end of the items it is the empty list, not an
  error.
\<close>

theorem paginate_questions_slice:
  assumes "args_page req = Some p" and "1 \<le> p"
  shows "paginate_questions req selection
           = take 10 (drop (nat ((p - 1) * 10)) (map format selection))
         \<and> length (paginate_questions req selection) \<le> 10
         \<and> (int (length selection) \<le> (p - 1) * 10 \<longrightarrow> paginate_questions req selection = [])"
proof -
  from assms(1) have "get_page req = p"
    by (simp add: get_page_def)
  from paginate_questions_take_drop [OF this assms(2)]
  have eq: "paginate_questions req selection
      = take 10 (drop (nat ((p - 1) * 10)) (map format selection))" .
  then show ?thesis by simp
qed

theorem paginate_questions_slice_witness:
  "args_page (page_request 2) = Some 2 \<and> (1::int) \<le> 2
   \<and> paginate_questions (page_request 2) (questions sample_db)
       = [format (sample_question 11), format (sample_question 12)]
   \<and> args_page (page_request 3) = Some 3 \<and> (1::int) \<le> 3
   \<and> int (length (questions sample_db)) \<le> (3 - 1) * 10
   \<and> paginate_questions (page_request 3) (questions sample_db) = []"
proof -
  have p2: "args_page (page_request 2) = Some 2" and p3: "args_page (page_request 3) = Some 3"
    by (simp_all add: page_request_def)
  have len: "int (length (questions sample_db)) \<le> (3 - 1) * 10"
    by (simp add: sample_db_def)
  from paginate_questions_slice [OF p2, of "questions sample_db"]
  have "paginate_questions (page_request 2) (questions sample_db)
       = [format (sample_question 11), format (sample_question 12)]"
    by (simp add: sample_db_def)
  moreover from paginate_questions_slice [OF p3, of "questions sample_db"] len
  have "paginate_questions (page_request 3) (questions sample_db) = []"
    by simp
  ultimately show ?thesis
    using p2 p3 len by simp
qed

subsection \<open>Listing the questions\<close>

text \<open>
  With at least one category stored, the listing answers an empty page with
  \<^verbatim>\<open>abort(404)\<close> and any other page with the page and the count of all questions.
\<close>

lemma get_questions_with_categories:
  assumes "categories d \<noteq> []"
  shows "paginate_questions req (all_by_id d) = [] \<Longrightarrow> get_questions req d = abort 404"
    and "paginate_questions req (all_by_id d) \<noteq> [] \<Longrightarrow>
         \<exists>cc. get_questions req d = Inr (PDict
               [success,
                (PStr ''questions'', PList (paginate_questions req (all_by_id d))),
                (PStr ''total_questions'', PInt (int (length (questions d)))),
                (PStr ''categories'', PDict (categories_dict_of (categories d))),
                (PStr ''current_category'', cc)])"
  using categories_dict_of_not_Nil [OF assms]
  by (auto simp: get_questions_def py_last_def Let_def split: list.splits)

text \<open>
  C7. The claim: every \<^verbatim>\<open>GET /questions\<close> request whose page is empty, also because
  there is no question at all, fails with 404. On a store with no category and no
  question the page is empty, but the handler reads \<^verbatim>\<open>l[-1]\<close> of the empty category
  list before it tests the page: the request ends in \<^verbatim>\<open>IndexError\<close>, status 500.
\<close>

theorem get_questions_no_rows_fault:
  "paginate_questions (page_request 1) (all_by_id empty_db) = []
   \<and> get_questions (page_request 1) empty_db = Inl IndexError
   \<and> status (get_questions (page_request 1) empty_db) = 500"
  by (simp add: get_questions_def categories_dict_of_Nil py_last_def Let_def empty_db_def
      all_by_id_def paginate_questions_Nil status_simps)

text \<open>
  C8. When the category table is empty, \<^verbatim>\<open>GET /questions\<close> raises \<^verbatim>\<open>IndexError\<close> at
  \<^verbatim>\<open>l[-1]\<close>, before the test of the page: whatever the questions and the page, nothing
  catches it and the response is the one of status 500, not 404.
\<close>

theorem get_questions_empty_categories:
  assumes "categories d = []"
  shows "get_questions req d = Inl IndexError
         \<and> respond (get_questions req d) = internal_server_error
         \<and> status (get_questions req d) = 500"
proof -
  have "get_questions req d = Inl IndexError"
    using assms by (simp add: get_questions_def categories_dict_of_Nil py_last_def Let_def)
  then show ?thesis
    by (simp add: status_def respond_def internal_server_error_def)
qed

theorem get_questions_empty_categories_witness:
  "categories (sample_db\<lparr>categories := []\<rparr>) = []
   \<and> get_questions (page_request 1) (sample_db\<lparr>categories := []\<rparr>) = Inl IndexError
   \<and> status (get_questions (page_request 1) (sample_db\<lparr>categories := []\<rparr>)) = 500
   \<and> paginate_questions (page_request 1) (all_by_id (sample_db\<lparr>categories := []\<rparr>)) \<noteq> []"
  using get_questions_empty_categories [of "sample_db\<lparr>categories := []\<rparr>" "page_request 1"]
  by (simp add: paginate_questions_take_drop [of _ 1] get_page_def page_request_def
      all_by_id_def sample_db_def status_simps)

subsection \<open>Listing the questions of a category\<close>

text \<open>
  C6. For an existing category id, the response of
  \<^verbatim>\<open>GET /categories/{id}/questions\<close> has \<^verbatim>\<open>total_questions\<close> equal to the number of all
  stored questions, not of those of the category, while \<^verbatim>\<open>questions\<close> is the page of the
  questions of that category only.
\<close>

theorem get_questions_by_category_total:
  assumes "filter (\<lambda>c. c_id c = category_id) (categories d) = [c]"
  shows "get_questions_by_category req category_id d = Inr (PDict
           [success,
            (PStr ''questions'', PList (paginate_questions req
               (filter (\<lambda>q. q_category q = Some category_id) (questions d)))),
            (PStr ''total_questions'', PInt (int (length (questions d)))),
            (PStr ''current_category'', PStr (c_type c))])"
proof -
  have "c_id c = category_id"
    using filter_singleton_holds [OF assms] .
  then show ?thesis
    using assms by (simp add: get_questions_by_category_def one_or_none_def Let_def)
qed

theorem get_questions_by_category_total_witness:
  "filter (\<lambda>c. c_id c = 2) (categories sample_db) = [\<lparr>c_id = 2, c_type = ''Art''\<rparr>]
   \<and> get_questions_by_category (page_request 1) 2 sample_db = Inr (PDict
           [success,
            (PStr ''questions'', PList
               [format (sample_question 10), format (sample_question 11),
                format (sample_question 12)]),
            (PStr ''total_questions'', PInt 12),
            (PStr ''current_category'', PStr ''Art'')])"
  using get_questions_by_category_total
    [of 2 sample_db "\<lparr>c_id = 2, c_type = ''Art''\<rparr>" "page_request 1"]
  by (simp add: sample_db_def sample_question_def paginate_questions_take_drop [of _ 1]
      get_page_def page_request_def)

text \<open>
  C10. For an existing category id, \<^verbatim>\<open>GET /categories/{id}/questions\<close> does not fail on
  an empty result: the response is a success of status 200, and when the category has no
  question, or the page lies beyond the questions of the category, its \<^verbatim>\<open>questions\<close> is
  the empty list.
\<close>

theorem get_questions_by_category_empty_page:
  assumes "filter (\<lambda>c. c_id c = category_id) (categories d) = [c]"
  shows "\<exists>kvs. get_questions_by_category req category_id d = Inr (PDict kvs)
           \<and> status (get_questions_by_category req category_id d) = 200
           \<and> map_of kvs (PStr ''success'') = Some (PBool True)
           \<and> (filter (\<lambda>q. q_category q = Some category_id) (questions d) = []
                \<or> (1 \<le> get_page req
                    \<and> int (length (filter (\<lambda>q. q_category q = Some category_id) (questions d)))
                         \<le> (get_page req - 1) * 10)
               \<longrightarrow> map_of kvs (PStr ''questions'') = Some (PList []))"
proof -
  let ?sel = "filter (\<lambda>q. q_category q = Some category_id) (questions d)"
  have cid: "c_id c = category_id"
    using filter_singleton_holds [OF assms] .
  have eq: "get_questions_by_category req category_id d = Inr (PDict
           [success,
            (PStr ''questions'', PList (paginate_questions req ?sel)),
            (PStr ''total_questions'', PInt (int (length (questions d)))),
            (PStr ''current_category'', PStr (c_type c))])"
    using assms cid by (simp add: get_questions_by_category_def one_or_none_def Let_def)
  have empty: "paginate_questions req ?sel = []"
    if "?sel = [] \<or> (1 \<le> get_page req \<and> int (length ?sel) \<le> (get_page req - 1) * 10)"
    using that
  proof
    assume "?sel = []"
    then show ?thesis by (simp add: paginate_questions_Nil)
  next
    assume beyond: "1 \<le> get_page req \<and> int (length ?sel) \<le> (get_page req - 1) * 10"
    then have "paginate_questions req ?sel
        = take 10 (drop (nat ((get_page req - 1) * 10)) (map format ?sel))"
      by (simp add: paginate_questions_take_drop)
    moreover from beyond have "length ?sel \<le> nat ((get_page req - 1) * 10)"
      by arith
    ultimately show ?thesis by simp
  qed
  show ?thesis
    using eq empty by (auto simp: status_simps)
qed

theorem get_questions_by_category_empty_page_witness:
  "filter (\<lambda>c. c_id c = 3) (categories sample_db) = [\<lparr>c_id = 3, c_type = ''Sports''\<rparr>]
   \<and> filter (\<lambda>q. q_category q = Some 3) (questions sample_db) = []
   \<and> get_questions_by_category (page_request 1) 3 sample_db = Inr (PDict
           [success,
            (PStr ''questions'', PList []),
            (PStr ''total_questions'', PInt 12),
            (PStr ''current_category'', PStr ''Sports'')])
   \<and> status (get_questions_by_category (page_request 1) 3 sample_db) = 200
   \<and> filter (\<lambda>c. c_id c = 2) (categories sample_db) = [\<lparr>c_id = 2, c_type = ''Art''\<rparr>]
   \<and> length (filter (\<lambda>q. q_category q = Some 2) (questions sample_db)) = 3
   \<and> get_page (page_request 5) = 5
   \<and> (\<exists>kvs. get_questions_by_category (page_request 5) 2 sample_db = Inr (PDict kvs)
         \<and> status (get_questions_by_category (page_request 5) 2 sample_db) = 200
         \<and> map_of kvs (PStr ''questions'') = Some (PList []))"
proof -
  have h: "filter (\<lambda>c. c_id c = 3) (categories sample_db) = [\<lparr>c_id = 3, c_type = ''Sports''\<rparr>]"
    and h2: "filter (\<lambda>c. c_id c = 2) (categories sample_db) = [\<lparr>c_id = 2, c_type = ''Art''\<rparr>]"
    by (simp_all add: sample_db_def)
  have e: "filter (\<lambda>q. q_category q = Some 3) (questions sample_db) = []"
    and l: "length (filter (\<lambda>q. q_category q = Some 2) (questions sample_db)) = 3"
    by (simp_all add: sample_db_def sample_question_def)
  have p: "get_page (page_request 5) = 5"
    by (simp add: get_page_def page_request_def)
  from get_questions_by_category_empty_page [OF h, of "page_request 1"]
  have "status (get_questions_by_category (page_request 1) 3 sample_db) = 200"
    by blast
  moreover have "get_questions_by_category (page_request 1) 3 sample_db = Inr (PDict
           [success,
            (PStr ''questions'', PList []),
            (PStr ''total_questions'', PInt 12),
            (PStr ''current_category'', PStr ''Sports'')])"
    using h e
    by (simp add: get_questions_by_category_def one_or_none_def Let_def paginate_questions_Nil)
      (simp add: sample_db_def)
  moreover from get_questions_by_category_empty_page [OF h2, of "page_request 5"]
  have "\<exists>kvs. get_questions_by_category (page_request 5) 2 sample_db = Inr (PDict kvs)
         \<and> status (get_questions_by_category (page_request 5) 2 sample_db) = 200
         \<and> map_of kvs (PStr ''questions'') = Some (PList [])"
    by (auto simp: l p)
  ultimately show ?thesis
    using h h2 e l p by simp
qed

subsection \<open>The bodies of the POST requests\<close>

text \<open>
  C9. In both POST handlers the fields of the JSON body are read before the \<^verbatim>\<open>try\<close>:
  when the body is missing or is not an object, \<^verbatim>\<open>body.get\<close> raises
  \<^verbatim>\<open>AttributeError\<close> outside the \<^verbatim>\<open>try\<close>, nothing turns it into 422 or 400, and the
  response has status 500.
\<close>

theorem post_body_not_object:
  assumes "\<not> is_dict (json_body req)"
  shows "create_question E req d = (Inl AttributeError, d)
         \<and> status (fst (create_question E req d)) = 500
         \<and> get_random_quiz_question E rnd req d = Some (Inl AttributeError)
         \<and> map_option status (get_random_quiz_question E rnd req d) = Some 500"
  using assms
  by (simp add: create_question_def get_random_quiz_question_def py_get_not_dict Let_def
      status_simps)

theorem post_body_not_object_witness:
  "\<not> is_dict (json_body \<lparr>args_page = None, json_body = PNone\<rparr>)
   \<and> \<not> is_dict (json_body \<lparr>args_page = None, json_body = PList [PInt 1]\<rparr>)
   \<and> create_question reference_env \<lparr>args_page = None, json_body = PNone\<rparr> sample_db
       = (Inl AttributeError, sample_db)
   \<and> status (fst (create_question reference_env \<lparr>args_page = None, json_body = PNone\<rparr>
        sample_db)) = 500
   \<and> map_option status (get_random_quiz_question reference_env (\<lambda>k. k)
        \<lparr>args_page = None, json_body = PNone\<rparr> sample_db) = Some 500
   \<and> status (fst (create_question reference_env
        \<lparr>args_page = None, json_body = PList [PInt 1]\<rparr> sample_db)) = 500
   \<and> map_option status (get_random_quiz_question reference_env (\<lambda>k. k)
        \<lparr>args_page = None, json_body = PList [PInt 1]\<rparr> sample_db) = Some 500"
  using post_body_not_object
    [of "\<lparr>args_page = None, json_body = PNone\<rparr>" reference_env sample_db "\<lambda>k. k"]
    post_body_not_object
    [of "\<lparr>args_page = None, json_body = PList [PInt 1]\<rparr>" reference_env sample_db "\<lambda>k. k"]
  by (simp add: is_dict_def status_simps)

subsection \<open>Searching\<close>


text \<open>
  The executable \<open>contains\<close> is the contiguous-run relation, and on a term without
  wildcards the pattern \<^verbatim>\<open>%term%\<close> of \<^verbatim>\<open>ILIKE\<close> is the case-insensitive substring match.
\<close>

lemma is_prefix_iff: "is_prefix p t = (\<exists>v. t = p @ v)"
  by (induction p t rule: is_prefix.induct) auto

lemma contains_iff: "contains p t = (\<exists>u v. t = u @ p @ v)"
proof (induction t)
  case Nil
  then show ?case by auto
next
  case (Cons c cs)
  show ?case
  proof
    assume "contains p (c # cs)"
    then consider "is_prefix p (c # cs)" | "contains p cs" by auto
    then show "\<exists>u v. c # cs = u @ p @ v"
    proof cases
      case 1
      then obtain v where "c # cs = p @ v" by (auto simp: is_prefix_iff)
      then have "c # cs = [] @ p @ v" by simp
      then show ?thesis by blast
    next
      case 2
      with Cons obtain u v where "cs = u @ p @ v" by auto
      then have "c # cs = (c # u) @ p @ v" by simp
      then show ?thesis by blast
    qed
  next
    assume "\<exists>u v. c # cs = u @ p @ v"
    then obtain u v where uv: "c # cs = u @ p @ v" by blast
    show "contains p (c # cs)"
    proof (cases u)
      case Nil
      with uv have "is_prefix p (c # cs)" by (auto simp: is_prefix_iff)
      then show ?thesis by simp
    next
      case (Cons a u')
      with uv have "cs = u' @ p @ v" by simp
      with Cons.IH have "contains p cs" by blast
      then show ?thesis by simp
    qed
  qed
qed











subsection \<open>Deleting a question\<close>

text \<open>
  Whatever the \<^verbatim>\<open>try\<close> of \<^verbatim>\<open>delete_question\<close> raises becomes \<^verbatim>\<open>abort(422)\<close>, and that
  includes the \<^verbatim>\<open>abort(404)\<close> for a question that is not there: the handler answers
  with 200 or with 422, never with 404.
\<close>

lemma delete_question_absent:
  assumes "filter (\<lambda>q. q_id q = question_id) (questions d) = []"
  shows "delete_question E req question_id d = (abort 422, d)"
  using assms
  by (simp add: delete_question_def delete_question_try_def one_or_none_def abort_def)

lemma delete_question_status:
  "status (fst (delete_question E req question_id d)) = 200
   \<or> status (fst (delete_question E req question_id d)) = 422"
  by (auto simp: delete_question_def status_simps split: prod.splits sum.splits)

lemma delete_question_storage_failure:
  assumes "filter (\<lambda>q. q_id q = question_id) (questions d) = [q]"
    and "delete_row E q d = Inl e"
  shows "delete_question E req question_id d = (abort 422, d)"
  using assms
  by (simp add: delete_question_def delete_question_try_def one_or_none_def abort_def)

text \<open>
  C2. The claim: a \<^verbatim>\<open>DELETE /questions/{id}\<close> for an id that no question has, also a
  repeated delete, answers 404, and any other failure 422. On the store without rows the
  delete of id 7 answers 422; on the sample store the first delete of id 5 succeeds and
  the second one answers 422.
\<close>

theorem delete_question_missing_unprocessable:
  "filter (\<lambda>q. q_id q = 7) (questions empty_db) = []
   \<and> delete_question reference_env (page_request 1) 7 empty_db = (abort 422, empty_db)
   \<and> status (fst (delete_question reference_env (page_request 1) 7 empty_db)) = 422
   \<and> status (fst (delete_question reference_env (page_request 1) 5 sample_db)) = 200
   \<and> status (fst (delete_question reference_env (page_request 1) 5
        (snd (delete_question reference_env (page_request 1) 5 sample_db)))) = 422"
proof -
  define d1 where
    "d1 = sample_db\<lparr>questions := map sample_question [1, 2, 3, 4, 6, 7, 8, 9, 10, 11, 12]\<rparr>"
  have absent: "filter (\<lambda>q. q_id q = 7) (questions empty_db) = []"
    by (simp add: empty_db_def)
  have first: "delete_question reference_env (page_request 1) 5 sample_db
      = (Inr (PDict
          [success,
           (PStr ''deleted'', PInt 5),
           (PStr ''questions'', PList (paginate_questions (page_request 1) (all_by_id d1))),
           (PStr ''total_questions'', PInt 11)]), d1)"
    by (simp add: delete_question_def delete_question_try_def one_or_none_def
        reference_env_def question_delete_def sample_db_def sample_question_def Let_def d1_def)
  have gone: "filter (\<lambda>q. q_id q = 5) (questions d1) = []"
    by (simp add: d1_def sample_question_def)
  show ?thesis
    using absent
    by (simp add: first delete_question_absent [OF gone] delete_question_absent [OF absent]
        status_simps)
qed


subsection \<open>The quiz\<close>

lemma fold_used:
  "fold (\<lambda>x used. if p x then True else used) xs b = (b \<or> (\<exists>x\<in>set xs. p x))"
  by (induction xs arbitrary: b) auto

lemma check_if_used_iter:
  assumes "py_iter previous = Inr xs"
  shows "check_if_used previous q = Inr (\<exists>x\<in>set xs. py_eq_int x (q_id q))"
  using assms by (simp add: check_if_used_def fold_used)

lemma py_len_iter:
  assumes "py_iter previous = Inr xs"
  shows "py_len previous = Inr (length xs)"
  using assms by (cases previous) (auto simp: py_iter_def py_len_def)

lemma py_eq_int_PInt: "py_eq_int (PInt i) i"
  by (simp add: py_eq_int_def)

lemma candidate_set_subset: "set (candidate_set E cid d) \<subseteq> set (questions d)"
  by (auto simp: candidate_set_def)

lemma quiz_loop_post:
  assumes "quiz_loop rnd k qs t previous question = Some r"
  shows "loop_post rnd k qs t previous question r"
proof (rule quiz_loop.raw_induct [where P = loop_post, OF _ assms])
  fix f rnd k qs t previous question r
  assume IH: "\<And>rnd k qs t previous question r.
    f rnd k qs t previous question = Some r \<Longrightarrow> loop_post rnd k qs t previous question r"
  assume body: "(case check_if_used previous question of
        Inl e \<Rightarrow> Some (Inl e)
      | Inr used \<Rightarrow>
          if used then
            (case get_random_question rnd k qs of
               Inl e \<Rightarrow> Some (Inl e)
             | Inr question' \<Rightarrow>
                 (case py_len previous of
                    Inl e \<Rightarrow> Some (Inl e)
                  | Inr n \<Rightarrow>
                      if n = t then Some (Inr (PDict [success]))
                      else f rnd (Suc k) qs t previous question'))
          else Some (Inr (PDict [success, (PStr ''question'', format question)]))) = Some r"
  show "loop_post rnd k qs t previous question r"
  proof (cases "check_if_used previous question")
    case (Inl e)
    then show ?thesis
      by (auto simp: loop_post_def check_if_used_def split: sum.splits)
  next
    case (Inr used)
    show ?thesis
    proof (cases used)
      case False
      with Inr body show ?thesis by (auto simp: loop_post_def)
    next
      case True
      show ?thesis
      proof (cases "qs = []")
        case True
        then show ?thesis by (simp add: loop_post_def)
      next
        case ne: False
        then have draw: "get_random_question rnd k qs = Inr (qs ! (rnd k mod length qs))"
          by (simp add: get_random_question_def)
        show ?thesis
        proof (cases "py_len previous")
          case (Inl e)
          then show ?thesis
            by (auto simp: loop_post_def py_len_def py_iter_def split: pyval.splits)
        next
          case len: (Inr n)
          show ?thesis
          proof (cases "n = t")
            case True
            with body Inr \<open>used\<close> draw len show ?thesis by (auto simp: loop_post_def)
          next
            case False
            with body Inr \<open>used\<close> draw len
            have "f rnd (Suc k) qs t previous (qs ! (rnd k mod length qs)) = Some r" by simp
            from IH [OF this] show ?thesis
              unfolding loop_post_def
              by (metis Suc_leD order_refl)
          qed
        qed
      qed
    qed
  qed
qed

lemma quiz_loop_cases:
  assumes "quiz_loop rnd k qs t previous question = Some r"
    and "py_iter previous = Inr xs" and "qs \<noteq> []"
  shows "(r = Inr (PDict [success]) \<and> length xs = t)
       \<or> (\<exists>q. (q = question \<or> (\<exists>j\<ge>k. q = qs ! (rnd j mod length qs)))
             \<and> check_if_used previous q = Inr False
             \<and> r = Inr (PDict [success, (PStr ''question'', format q)]))"
  using quiz_loop_post [OF assms(1)] assms(2,3) py_len_iter [OF assms(2)]
  by (auto simp: loop_post_def)

lemma quiz_loop_stops:
  assumes "check_if_used previous question = Inr True"
    and "py_iter previous = Inr xs" and "qs \<noteq> []" and "length xs = t"
  shows "quiz_loop rnd k qs t previous question = Some (Inr (PDict [success]))"
  using assms py_len_iter [OF assms(2)]
  by (subst quiz_loop.simps) (simp add: get_random_question_def)

lemma quiz_loop_raises:
  assumes "py_iter previous = Inl e"
  shows "quiz_loop rnd k qs t previous question = Some (Inl e)"
  using assms
  by (subst quiz_loop.simps) (simp add: check_if_used_def)

text \<open>
  At the level of the handler: when the first draw is used and \<^verbatim>\<open>len(previous)\<close> is the
  size of the candidate set, the response is the bare success.
\<close>

lemma quiz_exhausted_response:
  assumes "json_body req = PDict b"
    and "map_of b (PStr ''previous_questions'') = Some previous"
    and "map_of b (PStr ''quiz_category'') = Some category"
    and "py_getitem category ''id'' = Inr cid"
    and "py_iter previous = Inr xs"
    and "candidate_set E cid d \<noteq> []"
    and "check_if_used previous
           (candidate_set E cid d ! (rnd 0 mod length (candidate_set E cid d))) = Inr True"
    and "length xs = length (candidate_set E cid d)"
  shows "get_random_quiz_question E rnd req d = Some (Inr (PDict [success]))"
proof -
  let ?qs = "candidate_set E cid d"
  have "quiz_loop rnd 1 ?qs (length ?qs) previous (?qs ! (rnd 0 mod length ?qs))
      = Some (Inr (PDict [success]))"
    using assms(5-8) by (simp add: quiz_loop_stops)
  then have "quiz_try E rnd previous category d = Some (Inr (PDict [success]))"
    using assms(4,6) by (simp add: quiz_try_def get_random_question_def Let_def)
  then show ?thesis
    using assms(1-3) by (simp add: get_random_quiz_question_def py_get_dict Let_def)
qed

lemma sample_candidates:
  "candidate_set reference_env (PInt 1) sample_db = map sample_question [1, 2, 3, 4, 5, 6, 7, 8, 9]"
  by (simp add: candidate_set_def py_eq_int_def reference_env_def sql_col_eq_def sample_db_def
      sample_question_def)

text \<open>
  C3. When the response of \<^verbatim>\<open>POST /quizzes\<close> has a \<^verbatim>\<open>question\<close> field, that field is
  the formatted row of a stored question whose id equals no element of the
  \<^verbatim>\<open>previous_questions\<close> of the request.
\<close>

theorem quiz_question_not_previous:
  assumes "get_random_quiz_question E rnd req d = Some (Inr (PDict kvs))"
    and "map_of kvs (PStr ''question'') = Some v"
  shows "\<exists>previous xs q.
           py_get (json_body req) ''previous_questions'' = Inr previous
           \<and> py_iter previous = Inr xs
           \<and> q \<in> set (questions d)
           \<and> v = format q
           \<and> (\<forall>x\<in>set xs. \<not> py_eq_int x (q_id q))
           \<and> PInt (q_id q) \<notin> set xs"
proof -
  from assms(1) obtain previous category where
    prev: "py_get (json_body req) ''previous_questions'' = Inr previous"
    and tried: "quiz_try E rnd previous category d = Some (Inr (PDict kvs))"
    by (auto simp: get_random_quiz_question_def Let_def abort_def
        split: sum.splits option.splits)
  from tried obtain cid question where
    first: "get_random_question rnd 0 (candidate_set E cid d) = Inr question"
    and loop: "quiz_loop rnd 1 (candidate_set E cid d) (length (candidate_set E cid d))
                 previous question = Some (Inr (PDict kvs))"
    by (auto simp: quiz_try_def Let_def split: sum.splits)
  let ?qs = "candidate_set E cid d"
  from first have ne: "?qs \<noteq> []" and q0: "question = ?qs ! (rnd 0 mod length ?qs)"
    by (auto simp: get_random_question_def split: if_splits)
  obtain xs where iter: "py_iter previous = Inr xs"
  proof (cases "py_iter previous")
    case (Inl e)
    from quiz_loop_raises [OF this] loop show ?thesis by simp
  next
    case (Inr xs)
    then show ?thesis by (rule that)
  qed
  from quiz_loop_cases [OF loop iter ne] assms(2)
  obtain q where q: "q = question \<or> (\<exists>j\<ge>1. q = ?qs ! (rnd j mod length ?qs))"
    and unused: "check_if_used previous q = Inr False"
    and kvs: "kvs = [success, (PStr ''question'', format q)]"
    by auto
  from q q0 ne have "q \<in> set ?qs"
    by auto
  then have mem: "q \<in> set (questions d)"
    using candidate_set_subset by blast
  from unused check_if_used_iter [OF iter, of q]
  have no: "\<forall>x\<in>set xs. \<not> py_eq_int x (q_id q)"
    by simp
  then have "PInt (q_id q) \<notin> set xs"
    using py_eq_int_PInt by blast
  moreover from kvs assms(2) have "v = format q" by simp
  ultimately show ?thesis
    using prev iter mem no by blast
qed


theorem quiz_question_not_previous_witness:
  "get_random_quiz_question reference_env (\<lambda>k. k)
       (quiz_request (PList [PInt 1, PInt 2]) (PInt 1)) sample_db
     = Some (Inr (PDict [success, (PStr ''question'', format (sample_question 3))]))
   \<and> map_of [success, (PStr ''question'', format (sample_question 3))] (PStr ''question'')
       = Some (format (sample_question 3))
   \<and> (\<exists>q \<in> set (questions sample_db).
         format (sample_question 3) = format q \<and> PInt (q_id q) \<notin> set [PInt 1, PInt 2])"
proof -
  let ?req = "quiz_request (PList [PInt 1, PInt 2]) (PInt 1)"
  have u1: "check_if_used (PList [PInt 1, PInt 2]) (sample_question 1) = Inr True"
    and u2: "check_if_used (PList [PInt 1, PInt 2]) (sample_question 2) = Inr True"
    and u3: "check_if_used (PList [PInt 1, PInt 2]) (sample_question 3) = Inr False"
    by (simp_all add: check_if_used_def py_iter_def py_eq_int_def sample_question_def)
  have len: "py_len (PList [PInt 1, PInt 2]) = Inr 2"
    by (simp add: py_len_def)
  let ?qs = "map sample_question [1, 2, 3, 4, 5, 6, 7, 8, 9]"
  have l3: "quiz_loop (\<lambda>k. k) 3 ?qs (length ?qs) (PList [PInt 1, PInt 2]) (sample_question 3)
      = Some (Inr (PDict [success, (PStr ''question'', format (sample_question 3))]))"
    by (subst quiz_loop.simps) (simp add: u3)
  have l2: "quiz_loop (\<lambda>k. k) 2 ?qs (length ?qs) (PList [PInt 1, PInt 2]) (sample_question 2)
      = Some (Inr (PDict [success, (PStr ''question'', format (sample_question 3))]))"
    using l3 by (subst quiz_loop.simps) (simp add: u2 len get_random_question_def)
  have l1: "quiz_loop (\<lambda>k. k) 1 ?qs (length ?qs) (PList [PInt 1, PInt 2]) (sample_question 1)
      = Some (Inr (PDict [success, (PStr ''question'', format (sample_question 3))]))"
    using l2
    by (subst quiz_loop.simps) (simp add: u1 len get_random_question_def numeral_2_eq_2 [symmetric])
  have ev: "get_random_quiz_question reference_env (\<lambda>k. k) ?req sample_db
     = Some (Inr (PDict [success, (PStr ''question'', format (sample_question 3))]))"
    using l1
    by (simp add: get_random_quiz_question_def quiz_request_def py_get_dict quiz_try_def
        py_getitem_def sample_candidates get_random_question_def Let_def)
  have m: "map_of [success, (PStr ''question'', format (sample_question 3))] (PStr ''question'')
       = Some (format (sample_question 3))"
    by simp
  have p: "py_get (json_body ?req) ''previous_questions'' = Inr (PList [PInt 1, PInt 2])"
    by (simp add: quiz_request_def py_get_dict)
  from quiz_question_not_previous [OF ev m] p
  have "\<exists>q \<in> set (questions sample_db).
         format (sample_question 3) = format q \<and> PInt (q_id q) \<notin> set [PInt 1, PInt 2]"
    by (auto simp: py_iter_def)
  with ev m show ?thesis by simp
qed

text \<open>
  C4. In the loop of the quiz selector, with \<^verbatim>\<open>total_questions\<close> the size of the
  candidate set: when the question at hand is used and \<^verbatim>\<open>len(previous)\<close> equals the
  size of the candidate set, the loop returns \<^verbatim>\<open>{success: true}\<close> without a question;
  whenever the loop returns, it returns that bare success with the two lengths equal, or
  a question that is not used; and when the question at hand and every later draw are
  used and the lengths differ, the loop does not return.
\<close>

theorem quiz_loop_exhaustion:
  assumes "py_iter previous = Inr xs" and "qs \<noteq> []"
  shows "(check_if_used previous question = Inr True \<and> length xs = length qs
            \<longrightarrow> quiz_loop rnd k qs (length qs) previous question = Some (Inr (PDict [success])))
       \<and> (\<forall>r. quiz_loop rnd k qs (length qs) previous question = Some r
            \<longrightarrow> (r = Inr (PDict [success]) \<and> length xs = length qs)
               \<or> (\<exists>q. (q = question \<or> (\<exists>j\<ge>k. q = qs ! (rnd j mod length qs)))
                     \<and> check_if_used previous q = Inr False
                     \<and> r = Inr (PDict [success, (PStr ''question'', format q)])))
       \<and> (check_if_used previous question = Inr True
            \<and> (\<forall>j\<ge>k. check_if_used previous (qs ! (rnd j mod length qs)) = Inr True)
            \<and> length xs \<noteq> length qs
            \<longrightarrow> quiz_loop rnd k qs (length qs) previous question = None)"
proof (intro conjI impI allI)
  assume "check_if_used previous question = Inr True \<and> length xs = length qs"
  then show "quiz_loop rnd k qs (length qs) previous question = Some (Inr (PDict [success]))"
    using assms by (simp add: quiz_loop_stops)
next
  fix r
  assume "quiz_loop rnd k qs (length qs) previous question = Some r"
  from quiz_loop_cases [OF this assms]
  show "(r = Inr (PDict [success]) \<and> length xs = length qs)
      \<or> (\<exists>q. (q = question \<or> (\<exists>j\<ge>k. q = qs ! (rnd j mod length qs)))
            \<and> check_if_used previous q = Inr False
            \<and> r = Inr (PDict [success, (PStr ''question'', format q)]))" .
next
  assume all_used: "check_if_used previous question = Inr True
     \<and> (\<forall>j\<ge>k. check_if_used previous (qs ! (rnd j mod length qs)) = Inr True)
     \<and> length xs \<noteq> length qs"
  show "quiz_loop rnd k qs (length qs) previous question = None"
  proof (cases "quiz_loop rnd k qs (length qs) previous question")
    case None
    then show ?thesis .
  next
    case (Some r)
    from quiz_loop_cases [OF this assms] all_used show ?thesis by auto
  qed
qed

theorem quiz_loop_exhaustion_witness:
  "py_iter (PList [PInt 1, PInt 2]) = Inr [PInt 1, PInt 2]
   \<and> py_iter (PList [PInt 1]) = Inr [PInt 1]
   \<and> [sample_question 1, sample_question 2] \<noteq> []
   \<and> check_if_used (PList [PInt 1, PInt 2]) (sample_question 1) = Inr True
   \<and> quiz_loop (\<lambda>k. k) 1 [sample_question 1, sample_question 2]
        (length [sample_question 1, sample_question 2]) (PList [PInt 1, PInt 2])
        (sample_question 1)
       = Some (Inr (PDict [success]))
   \<and> check_if_used (PList [PInt 1]) (sample_question 1) = Inr True
   \<and> quiz_loop (\<lambda>k. 0) 1 [sample_question 1, sample_question 2]
        (length [sample_question 1, sample_question 2]) (PList [PInt 1])
        (sample_question 1)
       = None"
proof -
  have i2: "py_iter (PList [PInt 1, PInt 2]) = Inr [PInt 1, PInt 2]"
    and i1: "py_iter (PList [PInt 1]) = Inr [PInt 1]"
    by (simp_all add: py_iter_def)
  have ne: "[sample_question 1, sample_question 2] \<noteq> []"
    by simp
  have u2: "check_if_used (PList [PInt 1, PInt 2]) (sample_question 1) = Inr True"
    and u1: "check_if_used (PList [PInt 1]) (sample_question 1) = Inr True"
    by (simp_all add: check_if_used_def py_iter_def py_eq_int_def sample_question_def)
  from quiz_loop_exhaustion [OF i2 ne, of "sample_question 1" "\<lambda>k. k" 1] u2
  have stop: "quiz_loop (\<lambda>k. k) 1 [sample_question 1, sample_question 2]
        (length [sample_question 1, sample_question 2]) (PList [PInt 1, PInt 2])
        (sample_question 1) = Some (Inr (PDict [success]))"
    by simp
  from quiz_loop_exhaustion [OF i1 ne, of "sample_question 1" "\<lambda>k. 0" 1] u1
  have run: "quiz_loop (\<lambda>k. 0) 1 [sample_question 1, sample_question 2]
        (length [sample_question 1, sample_question 2]) (PList [PInt 1])
        (sample_question 1) = None"
    by simp
  from i2 i1 ne u2 stop u1 run show ?thesis by blast
qed

end
